theory Spec2Isabelle
  imports Complex_Main
begin

section \<open>Messages\<close>

text \<open>
  The detector of \<^verbatim>\<open>tl_detector.py\<close> works on ROS messages. Only the fields the
  detector reads are kept. Coordinates are Python floats in the source; they are taken
  as real numbers here, so rounding is not part of the model.
\<close>

record point =
  p_x :: real
  p_y :: real
  p_z :: real

record quaternion =
  q_x :: real
  q_y :: real
  q_z :: real
  q_w :: real

record pose =
  position :: point
  orientation :: quaternion

text \<open>
  Modelled from the spec: the colour constants of \<^verbatim>\<open>styx_msgs/TrafficLight\<close> are
  not part of the sources at hand; the spec names the four colours.
\<close>

datatype color = RED | YELLOW | GREEN | UNKNOWN

text \<open>
  A \<^verbatim>\<open>TrafficLight\<close> carries a stamped pose and a state, a route \<^verbatim>\<open>Waypoint\<close> a
  stamped pose. The source reaches the pose of either one as \<^verbatim>\<open>.pose.pose\<close>.
\<close>

record traffic_light =
  light_pose :: pose
  light_state :: color

record waypoint =
  wp_pose :: pose

datatype error = AttributeError | TypeError | IndexError

section \<open>The detector\<close>

record tl_detector =
  pose :: "pose option"
  waypoints :: "waypoint list option"
  lights :: "traffic_light list"
  stop_line_positions_poses :: "traffic_light list"
  has_image :: bool
  state :: color
  last_state :: color
  last_wp :: int
  state_count :: int

definition STATE_COUNT_THRESHOLD :: int where
  "STATE_COUNT_THRESHOLD = 3"

text \<open>The fields as \<^verbatim>\<open>__init__\<close> leaves them, for a given list of stop lines.\<close>

definition init :: "traffic_light list \<Rightarrow> tl_detector" where
  "init stops =
     \<lparr>pose = None, waypoints = None, lights = [], stop_line_positions_poses = stops,
      has_image = False, state = UNKNOWN, last_state = UNKNOWN, last_wp = -1,
      state_count = 0\<rparr>"

definition pose_cb :: "tl_detector \<Rightarrow> pose \<Rightarrow> tl_detector" where
  "pose_cb s msg = s\<lparr>pose := Some msg\<rparr>"

definition waypoints_cb :: "tl_detector \<Rightarrow> waypoint list \<Rightarrow> tl_detector" where
  "waypoints_cb s wps = s\<lparr>waypoints := Some wps\<rparr>"

definition traffic_cb :: "tl_detector \<Rightarrow> traffic_light list \<Rightarrow> tl_detector" where
  "traffic_cb s msg = s\<lparr>lights := msg\<rparr>"

section \<open>Nearest candidate search\<close>

definition get_distance_between_poses :: "pose \<Rightarrow> pose \<Rightarrow> real" where
  "get_distance_between_poses a b =
     sqrt ((p_x (position a) - p_x (position b))\<^sup>2 + (p_y (position a) - p_y (position b))\<^sup>2)"

definition search_range :: real where
  "search_range = 400"

text \<open>
  \<^verbatim>\<open>min_dist\<close> starts as \<^verbatim>\<open>float("inf")\<close>: \<open>None\<close> stands for that value,
  which every distance is below.
\<close>

fun below :: "real \<Rightarrow> real option \<Rightarrow> bool" where
  "below d None = True"
| "below d (Some m) = (d < m)"

text \<open>
  The loop over \<^verbatim>\<open>enumerate(waypoints)\<close>, with the two local variables
  \<^verbatim>\<open>min_dist\<close> and \<^verbatim>\<open>min_idx\<close> as the accumulator. With \<^verbatim>\<open>mode == None\<close> a
  closer candidate inside the range is recorded. With \<^verbatim>\<open>mode == "forward"\<close> the source
  computes the car's orientation vector and the yaw and prints them, then falls to
  \<^verbatim>\<open>pass\<close>: neither local is assigned. (That \<^verbatim>\<open>pass\<close> stands one column left of
  its block in the source; it is read here as the block's last statement.) Any other mode
  matches no branch.
\<close>

fun closest_loop ::
  "pose \<Rightarrow> string option \<Rightarrow> nat \<Rightarrow> pose list \<Rightarrow> real option \<times> nat option \<Rightarrow> real option \<times> nat option"
where
  "closest_loop ref mode i [] acc = acc"
| "closest_loop ref mode i (wp # wps) (min_dist, min_idx) =
     (let dist = get_distance_between_poses wp ref in
      if below dist min_dist \<and> dist < search_range then
        if mode = None then closest_loop ref mode (Suc i) wps (Some dist, Some i)
        else if mode = Some ''forward'' then closest_loop ref mode (Suc i) wps (min_dist, min_idx)
        else closest_loop ref mode (Suc i) wps (min_dist, min_idx)
      else closest_loop ref mode (Suc i) wps (min_dist, min_idx))"

text \<open>
  The result is Python's: the integer \<open>-1\<close> when the list or the pose is \<^verbatim>\<open>None\<close>,
  otherwise \<^verbatim>\<open>min_idx\<close>, which is \<^verbatim>\<open>None\<close> or an index.
\<close>

definition get_closest_waypoint ::
  "pose option \<Rightarrow> pose list option \<Rightarrow> string option \<Rightarrow> int option"
where
  "get_closest_waypoint ref cands mode =
     (case cands of
        None \<Rightarrow> Some (- 1)
      | Some wps \<Rightarrow>
          (case ref of
             None \<Rightarrow> Some (- 1)
           | Some p \<Rightarrow> map_option int (snd (closest_loop p mode 0 wps (None, None)))))"

section \<open>Resolving the light to a route waypoint\<close>

text \<open>Python's list indexing: a negative index counts from the end.\<close>

definition py_index :: "'a list \<Rightarrow> int \<Rightarrow> error + 'a" where
  "py_index xs i =
     (if 0 \<le> i \<and> i < int (length xs) then Inr (xs ! nat i)
      else if i < 0 \<and> - int (length xs) \<le> i then Inr (xs ! nat (int (length xs) + i))
      else Inl IndexError)"

text \<open>
  All three searches of the resolver, and the search for the route waypoint, pass no
  mode. Indexing the stop lines with \<^verbatim>\<open>None\<close> raises a \<^verbatim>\<open>TypeError\<close>, and
  \<^verbatim>\<open>self.waypoints.waypoints\<close> raises an \<^verbatim>\<open>AttributeError\<close> while no route has
  arrived; the arguments of the last search are evaluated in that order.
\<close>

definition process_traffic_lights :: "tl_detector \<Rightarrow> error + (int \<times> color)" where
  "process_traffic_lights s =
     (case pose s of
        None \<Rightarrow> Inr (- 1, UNKNOWN)
      | Some car \<Rightarrow>
          (case get_closest_waypoint (Some car) (Some (map light_pose (lights s))) None of
             None \<Rightarrow> Inr (- 1, UNKNOWN)
           | Some light_idx \<Rightarrow>
               (case py_index (lights s) light_idx of
                  Inl e \<Rightarrow> Inl e
                | Inr light \<Rightarrow>
                    (let stops = stop_line_positions_poses s;
                         stop_line_idx =
                           get_closest_waypoint (Some (light_pose light)) (Some (map light_pose stops)) None;
                         stop_forward_idx =
                           get_closest_waypoint (Some car) (Some (map light_pose stops)) None
                     in if stop_line_idx \<noteq> stop_forward_idx then Inr (- 1, UNKNOWN)
                        else
                          (case stop_line_idx of
                             None \<Rightarrow> Inl TypeError
                           | Some sl \<Rightarrow>
                               (case py_index stops sl of
                                  Inl e \<Rightarrow> Inl e
                                | Inr stop \<Rightarrow>
                                    (case waypoints s of
                                       None \<Rightarrow> Inl AttributeError
                                     | Some route \<Rightarrow>
                                         (case get_closest_waypoint (Some (light_pose stop))
                                                 (Some (map wp_pose route)) None of
                                            None \<Rightarrow> Inr (- 1, UNKNOWN)
                                          | Some stop_waypoint_idx \<Rightarrow>
                                              Inr (stop_waypoint_idx, light_state light)))))))))"

section \<open>Publishing at camera rate\<close>

text \<open>
  The second half of \<^verbatim>\<open>image_cb\<close>, from the raw result of the resolver on: the new
  detector and the values handed to the publisher during this frame, in order.
\<close>

definition image_cb_publish :: "tl_detector \<Rightarrow> int \<times> color \<Rightarrow> tl_detector \<times> int list" where
  "image_cb_publish s r =
     (case r of (light_wp, st) \<Rightarrow>
        (if state s \<noteq> st then
           (s\<lparr>state_count := 0 + 1, state := st\<rparr>, [])
         else if state_count s \<ge> STATE_COUNT_THRESHOLD then
           (let light_wp' = (if st = RED then light_wp else - 1)
            in (s\<lparr>last_state := state s, last_wp := light_wp', state_count := state_count s + 1\<rparr>,
                [light_wp']))
         else
           (s\<lparr>state_count := state_count s + 1\<rparr>, [last_wp s])))"

text \<open>
  A camera frame: an error of the resolver leaves the callback before anything is
  published. The camera image itself is not kept, the ground truth gives the colour.
\<close>

definition image_cb :: "tl_detector \<Rightarrow> error + (tl_detector \<times> int list)" where
  "image_cb s =
     (let s1 = s\<lparr>has_image := True\<rparr>
      in case process_traffic_lights s1 of
           Inl e \<Rightarrow> Inl e
         | Inr r \<Rightarrow> Inr (image_cb_publish s1 r))"

text \<open>
  \<open>frames n s\<close> delivers \<open>n\<close> camera frames in a row, no other message in between,
  and collects what was published.
\<close>

fun frames :: "nat \<Rightarrow> tl_detector \<Rightarrow> error + (tl_detector \<times> int list)" where
  "frames 0 s = Inr (s, [])"
| "frames (Suc n) s =
     (case image_cb s of
        Inl e \<Rightarrow> Inl e
      | Inr (s', out) \<Rightarrow>
          (case frames n s' of
             Inl e \<Rightarrow> Inl e
           | Inr (s'', outs) \<Rightarrow> Inr (s'', out @ outs)))"

text \<open>\<open>feed r n s\<close> is the detector after \<open>n\<close> frames whose raw result is \<open>r\<close> each time.\<close>

fun feed :: "int \<times> color \<Rightarrow> nat \<Rightarrow> tl_detector \<Rightarrow> tl_detector" where
  "feed r 0 s = s"
| "feed r (Suc n) s = fst (image_cb_publish (feed r n s) r)"

section \<open>Heading\<close>

text \<open>
  The vector the forward branch computes and prints: the rotation of the x axis by the
  pose's quaternion, as \<^verbatim>\<open>PyKDL.Rotation.Quaternion(x, y, z, w) * Vector(1, 0, 0)\<close>
  gives it (the first column of the rotation matrix).
\<close>

definition car_orientation :: "pose \<Rightarrow> real \<times> real \<times> real" where
  "car_orientation p =
     (let x = q_x (orientation p); y = q_y (orientation p);
          z = q_z (orientation p); w = q_w (orientation p)
      in (w * w + x * x - y * y - z * z, 2 * x * y + 2 * w * z, 2 * x * z - 2 * w * y))"

text \<open>
  Modelled from the spec: the source has no test for a candidate lying ahead. The spec
  gives one, the scalar product of the heading vector and the vector to the candidate
  being positive; \<open>spec_ahead\<close> follows these words, in the plane.
\<close>

definition spec_ahead :: "pose \<Rightarrow> pose \<Rightarrow> bool" where
  "spec_ahead car cand =
     (case car_orientation car of (hx, hy, hz) \<Rightarrow>
        hx * (p_x (position cand) - p_x (position car)) +
        hy * (p_y (position cand) - p_y (position car)) > 0)"

section \<open>Scenarios\<close>

text \<open>A pose at a point of the plane, heading along the x axis.\<close>

definition pose_at :: "real \<Rightarrow> real \<Rightarrow> pose" where
  "pose_at x y =
     \<lparr>position = \<lparr>p_x = x, p_y = y, p_z = 0\<rparr>,
      orientation = \<lparr>q_x = 0, q_y = 0, q_z = 0, q_w = 1\<rparr>\<rparr>"

definition light_at :: "real \<Rightarrow> real \<Rightarrow> color \<Rightarrow> traffic_light" where
  "light_at x y c = \<lparr>light_pose = pose_at x y, light_state = c\<rparr>"

definition waypoint_at :: "real \<Rightarrow> real \<Rightarrow> waypoint" where
  "waypoint_at x y = \<lparr>wp_pose = pose_at x y\<rparr>"

text \<open>
  A detector that has received a pose, a route and the lights: the three callbacks on
  the initial detector.
\<close>

definition detector ::
  "traffic_light list \<Rightarrow> pose \<Rightarrow> waypoint list \<Rightarrow> traffic_light list \<Rightarrow> tl_detector"
where
  "detector stops car route ls = traffic_cb (waypoints_cb (pose_cb (init stops) car) route) ls"

text \<open>
  Scenario A of the spec: five waypoints on the x axis, a red light at \<open>(25, 0)\<close>, its
  stop line at \<open>(22, 0)\<close>, the car at the origin.
\<close>

definition route_A :: "waypoint list" where
  "route_A = [waypoint_at 0 0, waypoint_at 10 0, waypoint_at 20 0, waypoint_at 30 0, waypoint_at 40 0]"

definition scenario_A :: tl_detector where
  "scenario_A = detector [light_at 22 0 UNKNOWN] (pose_at 0 0) route_A [light_at 25 0 RED]"

text \<open>Scenario A before any route has arrived.\<close>

definition scenario_no_route :: tl_detector where
  "scenario_no_route =
     traffic_cb (pose_cb (init [light_at 22 0 UNKNOWN]) (pose_at 0 0)) [light_at 25 0 RED]"

text \<open>Scenario A mirrored: light, stop line and route lie behind the car.\<close>

definition scenario_behind :: tl_detector where
  "scenario_behind =
     detector [light_at (- 22) 0 UNKNOWN] (pose_at 0 0)
       [waypoint_at (- 40) 0, waypoint_at (- 30) 0, waypoint_at (- 20) 0, waypoint_at (- 10) 0,
        waypoint_at 0 0]
       [light_at (- 25) 0 RED]"

text \<open>
  Two stop lines: the one nearest the car is not the one nearest the only light.
\<close>

definition scenario_C :: tl_detector where
  "scenario_C =
     detector [light_at 10 0 UNKNOWN, light_at 95 0 UNKNOWN] (pose_at 0 0) route_A
       [light_at 100 0 RED]"

text \<open>A detector that has seen red often enough while its stable colour is still green.\<close>

definition seen_red :: tl_detector where
  "seen_red = (init [])\<lparr>state := RED, last_state := GREEN, state_count := 5\<rparr>"

section \<open>Properties of the search\<close>

lemma sqrt_less_range: "sqrt x < 400 \<longleftrightarrow> x < 160000"
proof -
  have "sqrt x < sqrt (400\<^sup>2) \<longleftrightarrow> x < 400\<^sup>2" by (rule real_sqrt_less_iff)
  then show ?thesis by simp
qed

lemma closest_loop_other_mode:
  "mode \<noteq> None \<Longrightarrow> closest_loop p mode i wps acc = acc"
  by (induction wps arbitrary: i acc) (auto simp: Let_def)

lemma closest_loop_nearest:
  "closest_loop p None i wps (md, mi) = (md', mi') \<Longrightarrow>
   (\<forall>j<length wps. get_distance_between_poses (wps ! j) p < search_range \<longrightarrow>
        (\<exists>m. md' = Some m \<and> m \<le> get_distance_between_poses (wps ! j) p)) \<and>
   (\<forall>m. md = Some m \<longrightarrow> (\<exists>m'. md' = Some m' \<and> m' \<le> m)) \<and>
   ((md', mi') = (md, mi) \<or>
    (\<exists>j<length wps. mi' = Some (i + j) \<and> md' = Some (get_distance_between_poses (wps ! j) p) \<and>
        get_distance_between_poses (wps ! j) p < search_range \<and>
        below (get_distance_between_poses (wps ! j) p) md \<and>
        (\<forall>k<j. get_distance_between_poses (wps ! j) p < get_distance_between_poses (wps ! k) p)))"
proof (induction wps arbitrary: i md mi)
  case Nil
  then show ?case by simp
next
  case (Cons wp wps)
  let ?d = "get_distance_between_poses wp p"
  show ?case
  proof (cases "below ?d md \<and> ?d < search_range")
    case True
    with Cons.prems have run: "closest_loop p None (Suc i) wps (Some ?d, Some i) = (md', mi')"
      by simp
    note ih = Cons.IH [OF run]
    from ih obtain m' where m': "md' = Some m'" "m' \<le> ?d" by auto
    have c1: "\<forall>j<length (wp # wps). get_distance_between_poses ((wp # wps) ! j) p < search_range \<longrightarrow>
        (\<exists>m. md' = Some m \<and> m \<le> get_distance_between_poses ((wp # wps) ! j) p)"
      using ih m' by (auto simp: nth_Cons split: nat.splits)
    have c2: "\<forall>m. md = Some m \<longrightarrow> (\<exists>m'. md' = Some m' \<and> m' \<le> m)"
      using True m' by auto
    from ih have "(md', mi') = (Some ?d, Some i) \<or>
      (\<exists>j<length wps. mi' = Some (Suc i + j) \<and> md' = Some (get_distance_between_poses (wps ! j) p) \<and>
        get_distance_between_poses (wps ! j) p < search_range \<and>
        below (get_distance_between_poses (wps ! j) p) (Some ?d) \<and>
        (\<forall>k<j. get_distance_between_poses (wps ! j) p < get_distance_between_poses (wps ! k) p))"
      by blast
    then have c3: "\<exists>j<length (wp # wps). mi' = Some (i + j) \<and>
        md' = Some (get_distance_between_poses ((wp # wps) ! j) p) \<and>
        get_distance_between_poses ((wp # wps) ! j) p < search_range \<and>
        below (get_distance_between_poses ((wp # wps) ! j) p) md \<and>
        (\<forall>k<j. get_distance_between_poses ((wp # wps) ! j) p < get_distance_between_poses ((wp # wps) ! k) p)"
    proof
      assume "(md', mi') = (Some ?d, Some i)"
      with True show ?thesis by (intro exI [of _ 0]) simp
    next
      assume "\<exists>j<length wps. mi' = Some (Suc i + j) \<and> md' = Some (get_distance_between_poses (wps ! j) p) \<and>
        get_distance_between_poses (wps ! j) p < search_range \<and>
        below (get_distance_between_poses (wps ! j) p) (Some ?d) \<and>
        (\<forall>k<j. get_distance_between_poses (wps ! j) p < get_distance_between_poses (wps ! k) p)"
      then obtain j where j: "j < length wps" "mi' = Some (Suc i + j)"
        "md' = Some (get_distance_between_poses (wps ! j) p)"
        "get_distance_between_poses (wps ! j) p < search_range"
        "get_distance_between_poses (wps ! j) p < ?d"
        "\<forall>k<j. get_distance_between_poses (wps ! j) p < get_distance_between_poses (wps ! k) p"
        by auto
      have b: "below (get_distance_between_poses (wps ! j) p) md"
        using True j(5) by (cases md) auto
      show ?thesis
        using j b by (intro exI [of _ "Suc j"]) (auto simp: nth_Cons split: nat.splits)
    qed
    from c1 c2 c3 show ?thesis by blast
  next
    case False
    with Cons.prems have run: "closest_loop p None (Suc i) wps (md, mi) = (md', mi')"
      by auto
    note ih = Cons.IH [OF run]
    have skip: "?d < search_range \<Longrightarrow> \<exists>m. md = Some m \<and> m \<le> ?d"
      using False by (cases md) auto
    have c1: "\<forall>j<length (wp # wps). get_distance_between_poses ((wp # wps) ! j) p < search_range \<longrightarrow>
        (\<exists>m. md' = Some m \<and> m \<le> get_distance_between_poses ((wp # wps) ! j) p)"
    proof (intro allI impI)
      fix j assume j: "j < length (wp # wps)"
        "get_distance_between_poses ((wp # wps) ! j) p < search_range"
      show "\<exists>m. md' = Some m \<and> m \<le> get_distance_between_poses ((wp # wps) ! j) p"
      proof (cases j)
        case 0
        with j skip obtain m where "md = Some m" "m \<le> ?d" by auto
        with ih 0 show ?thesis by fastforce
      next
        case (Suc j')
        with j ih show ?thesis by auto
      qed
    qed
    have c2: "\<forall>m. md = Some m \<longrightarrow> (\<exists>m'. md' = Some m' \<and> m' \<le> m)"
      using ih by blast
    from ih have "(md', mi') = (md, mi) \<or>
      (\<exists>j<length wps. mi' = Some (Suc i + j) \<and> md' = Some (get_distance_between_poses (wps ! j) p) \<and>
        get_distance_between_poses (wps ! j) p < search_range \<and>
        below (get_distance_between_poses (wps ! j) p) md \<and>
        (\<forall>k<j. get_distance_between_poses (wps ! j) p < get_distance_between_poses (wps ! k) p))"
      by blast
    then have c3: "(md', mi') = (md, mi) \<or> (\<exists>j<length (wp # wps). mi' = Some (i + j) \<and>
        md' = Some (get_distance_between_poses ((wp # wps) ! j) p) \<and>
        get_distance_between_poses ((wp # wps) ! j) p < search_range \<and>
        below (get_distance_between_poses ((wp # wps) ! j) p) md \<and>
        (\<forall>k<j. get_distance_between_poses ((wp # wps) ! j) p < get_distance_between_poses ((wp # wps) ! k) p))"
    proof
      assume "(md', mi') = (md, mi)"
      then show ?thesis by blast
    next
      assume "\<exists>j<length wps. mi' = Some (Suc i + j) \<and> md' = Some (get_distance_between_poses (wps ! j) p) \<and>
        get_distance_between_poses (wps ! j) p < search_range \<and>
        below (get_distance_between_poses (wps ! j) p) md \<and>
        (\<forall>k<j. get_distance_between_poses (wps ! j) p < get_distance_between_poses (wps ! k) p)"
      then obtain j where j: "j < length wps" "mi' = Some (Suc i + j)"
        "md' = Some (get_distance_between_poses (wps ! j) p)"
        "get_distance_between_poses (wps ! j) p < search_range"
        "below (get_distance_between_poses (wps ! j) p) md"
        "\<forall>k<j. get_distance_between_poses (wps ! j) p < get_distance_between_poses (wps ! k) p"
        by auto
      have first: "get_distance_between_poses (wps ! j) p < ?d"
      proof (cases "?d < search_range")
        case True
        with skip obtain m where "md = Some m" "m \<le> ?d" by auto
        with j(5) show ?thesis by simp
      next
        case False
        with j(4) show ?thesis by simp
      qed
      have "\<exists>j<length (wp # wps). mi' = Some (i + j) \<and>
        md' = Some (get_distance_between_poses ((wp # wps) ! j) p) \<and>
        get_distance_between_poses ((wp # wps) ! j) p < search_range \<and>
        below (get_distance_between_poses ((wp # wps) ! j) p) md \<and>
        (\<forall>k<j. get_distance_between_poses ((wp # wps) ! j) p < get_distance_between_poses ((wp # wps) ! k) p)"
        using j first by (intro exI [of _ "Suc j"]) (auto simp: nth_Cons split: nat.splits)
      then show ?thesis by blast
    qed
    from c1 c2 c3 show ?thesis by blast
  qed
qed

lemma dist_pose_at:
  "get_distance_between_poses (pose_at x y) (pose_at u v) = sqrt ((x - u)\<^sup>2 + (y - v)\<^sup>2)"
  by (simp add: get_distance_between_poses_def pose_at_def)

lemma closest_loop_found:
  assumes "snd (closest_loop p mode 0 wps (None, None)) = Some k"
  shows "k < length wps \<and> get_distance_between_poses (wps ! k) p < search_range"
proof (cases mode)
  case None
  obtain md' mi' where r: "closest_loop p None 0 wps (None, None) = (md', mi')"
    by (cases "closest_loop p None 0 wps (None, None)")
  with assms None have "mi' = Some k" by simp
  with closest_loop_nearest [OF r] show ?thesis by auto
next
  case (Some m)
  with assms show ?thesis by (simp add: closest_loop_other_mode)
qed

text \<open>
  Claim C5. For every reference pose and every candidate list, the search with
  \<^verbatim>\<open>mode="forward"\<close> returns \<^verbatim>\<open>None\<close>, however many candidates lie in range or
  ahead: the forward branch never records a candidate.
\<close>

theorem forward_mode_finds_nothing:
  "get_closest_waypoint (Some p) (Some wps) (Some ''forward'') = None"
  by (simp add: get_closest_waypoint_def closest_loop_other_mode)

text \<open>
  Claim C8. An index the search returns, for a pose and a list that are present and in
  any mode, is an index of the list, and the distance of that candidate from the
  reference is below the cutoff of 400; so it never exceeds the cutoff.
\<close>

theorem match_within_search_range:
  assumes "get_closest_waypoint (Some p) (Some wps) mode = Some i"
  shows "0 \<le> i \<and> i < int (length wps) \<and>
         get_distance_between_poses (wps ! nat i) p < search_range"
proof -
  from assms obtain k where "snd (closest_loop p mode 0 wps (None, None)) = Some k" "i = int k"
    by (auto simp: get_closest_waypoint_def)
  with closest_loop_found [of p mode wps k] show ?thesis by simp
qed

theorem match_within_search_range_witness:
  "get_closest_waypoint (Some (pose_at 0 0)) (Some [pose_at 500 0, pose_at 3 4]) None = Some 1 \<and>
   (1::int) < int (length [pose_at 500 0, pose_at 3 4]) \<and>
   get_distance_between_poses ([pose_at 500 0, pose_at 3 4] ! nat 1) (pose_at 0 0) < search_range"
proof -
  have e: "get_closest_waypoint (Some (pose_at 0 0)) (Some [pose_at 500 0, pose_at 3 4]) None = Some 1"
    by (simp add: get_closest_waypoint_def dist_pose_at search_range_def sqrt_less_range)
  from match_within_search_range [OF e] e show ?thesis by simp
qed

text \<open>
  Claim C9 promises a match whenever a candidate lies within the cutoff. A candidate at
  a distance of exactly 400 does not exceed the cutoff, yet the source's test
  \<^verbatim>\<open>dist<search_range\<close> is strict and the search returns \<^verbatim>\<open>None\<close>.
\<close>

theorem candidate_on_the_cutoff_is_no_match:
  "get_distance_between_poses ([pose_at 400 0] ! 0) (pose_at 0 0) \<le> search_range \<and>
   get_closest_waypoint (Some (pose_at 0 0)) (Some [pose_at 400 0]) None = None"
  by (simp add: get_closest_waypoint_def dist_pose_at search_range_def)

text \<open>
  Claim C9, amended. When some candidate lies at a distance strictly below the cutoff
  of 400, the search without a mode returns an index; its candidate is in range and no
  candidate is closer, and every candidate before it is strictly farther: among
  candidates at the least distance the lowest index wins.
\<close>

theorem nearest_mode_first_minimum:
  assumes "\<exists>j<length wps. get_distance_between_poses (wps ! j) p < search_range"
  shows "\<exists>i<length wps.
           get_closest_waypoint (Some p) (Some wps) None = Some (int i) \<and>
           get_distance_between_poses (wps ! i) p < search_range \<and>
           (\<forall>j<length wps. get_distance_between_poses (wps ! i) p \<le> get_distance_between_poses (wps ! j) p) \<and>
           (\<forall>j<i. get_distance_between_poses (wps ! i) p < get_distance_between_poses (wps ! j) p)"
proof -
  obtain md' mi' where r: "closest_loop p None 0 wps (None, None) = (md', mi')"
    by (cases "closest_loop p None 0 wps (None, None)")
  note inv = closest_loop_nearest [OF r]
  from assms inv obtain m where m: "md' = Some m" by blast
  with inv obtain i where i: "i < length wps" "mi' = Some i"
    "md' = Some (get_distance_between_poses (wps ! i) p)"
    "get_distance_between_poses (wps ! i) p < search_range"
    "\<forall>k<i. get_distance_between_poses (wps ! i) p < get_distance_between_poses (wps ! k) p"
    by auto
  have least: "get_distance_between_poses (wps ! i) p \<le> get_distance_between_poses (wps ! j) p"
    if "j < length wps" for j
  proof (cases "get_distance_between_poses (wps ! j) p < search_range")
    case True
    with inv that i(3) show ?thesis by auto
  next
    case False
    with i(4) show ?thesis by simp
  qed
  have "get_closest_waypoint (Some p) (Some wps) None = Some (int i)"
    using r i(2) by (simp add: get_closest_waypoint_def)
  with i least show ?thesis by blast
qed

theorem nearest_mode_first_minimum_witness:
  "(\<exists>j<length [pose_at 500 0, pose_at 3 4, pose_at 5 0, pose_at 0 (- 5), pose_at 6 8].
      get_distance_between_poses
        ([pose_at 500 0, pose_at 3 4, pose_at 5 0, pose_at 0 (- 5), pose_at 6 8] ! j) (pose_at 0 0)
        < search_range) \<and>
   get_closest_waypoint (Some (pose_at 0 0))
     (Some [pose_at 500 0, pose_at 3 4, pose_at 5 0, pose_at 0 (- 5), pose_at 6 8]) None = Some 1"
proof -
  let ?W = "[pose_at 500 0, pose_at 3 4, pose_at 5 0, pose_at 0 (- 5), pose_at 6 8]"
  have "get_distance_between_poses (?W ! 1) (pose_at 0 0) < search_range"
    by (simp add: dist_pose_at search_range_def sqrt_less_range)
  then have h: "\<exists>j<length ?W. get_distance_between_poses (?W ! j) (pose_at 0 0) < search_range"
    by (intro exI [of _ 1]) simp
  have e: "get_closest_waypoint (Some (pose_at 0 0)) (Some ?W) None = Some 1"
    by (simp add: get_closest_waypoint_def dist_pose_at search_range_def sqrt_less_range)
  from nearest_mode_first_minimum [OF h] h e show ?thesis by simp
qed

text \<open>
  Claim C10 says the search answers its three failure cases with one and the same
  result. It does not: a missing pose gives the integer \<open>-1\<close>, an empty list gives
  \<^verbatim>\<open>None\<close>.
\<close>

theorem no_match_results_differ:
  "get_closest_waypoint None (Some []) None \<noteq> get_closest_waypoint (Some (pose_at 0 0)) (Some []) None"
  by (simp add: get_closest_waypoint_def)

text \<open>
  Claim C10, amended. With a pose and a list present, the search returns \<^verbatim>\<open>None\<close>
  when the list is empty and when no candidate lies within the cutoff; when the pose or
  the list is \<^verbatim>\<open>None\<close> it returns the integer \<open>-1\<close> instead.
\<close>

theorem no_match_results:
  "get_closest_waypoint (Some p) (Some []) mode = None \<and>
   ((\<forall>j<length wps. \<not> get_distance_between_poses (wps ! j) p < search_range) \<longrightarrow>
      get_closest_waypoint (Some p) (Some wps) mode = None) \<and>
   get_closest_waypoint None cands mode = Some (- 1) \<and>
   get_closest_waypoint ref None mode = Some (- 1)"
proof -
  have "get_closest_waypoint (Some p) (Some wps) mode = None"
    if far: "\<forall>j<length wps. \<not> get_distance_between_poses (wps ! j) p < search_range"
  proof (cases "snd (closest_loop p mode 0 wps (None, None))")
    case None
    then show ?thesis by (simp add: get_closest_waypoint_def)
  next
    case (Some k)
    from closest_loop_found [OF Some] far show ?thesis by blast
  qed
  then show ?thesis
    by (simp add: get_closest_waypoint_def split: option.splits)
qed

theorem no_match_results_witness:
  "\<not> get_distance_between_poses ([pose_at 500 0] ! 0) (pose_at 0 0) < search_range \<and>
   get_closest_waypoint (Some (pose_at 0 0)) (Some [pose_at 500 0]) None = None \<and>
   get_closest_waypoint (Some (pose_at 0 0)) (Some []) None = None \<and>
   get_closest_waypoint None (Some [pose_at 500 0]) None = Some (- 1)"
proof -
  have far: "\<not> get_distance_between_poses ([pose_at 500 0] ! 0) (pose_at 0 0) < search_range"
    by (simp add: dist_pose_at search_range_def sqrt_less_range)
  then have h: "\<forall>j<length [pose_at 500 0].
      \<not> get_distance_between_poses ([pose_at 500 0] ! j) (pose_at 0 0) < search_range"
    by simp
  from no_match_results [of "pose_at 0 0" None "[pose_at 500 0]" "Some [pose_at 500 0]" None] h far
  show ?thesis by blast
qed

section \<open>Evaluating the scenarios\<close>

lemma search_eval:
  "get_closest_waypoint (Some p) (Some wps) None = map_option int (snd (closest_loop p None 0 wps (None, None)))"
  by (simp add: get_closest_waypoint_def)

lemmas fixture_defs = detector_def traffic_cb_def waypoints_cb_def pose_cb_def init_def
  light_at_def waypoint_at_def route_A_def

lemma resolve_A: "process_traffic_lights scenario_A = Inr (2, RED)"
  by (simp add: process_traffic_lights_def scenario_A_def fixture_defs search_eval
      py_index_def dist_pose_at search_range_def sqrt_less_range)

lemma resolve_no_route: "process_traffic_lights scenario_no_route = Inl AttributeError"
  by (simp add: process_traffic_lights_def scenario_no_route_def fixture_defs search_eval
      py_index_def dist_pose_at search_range_def sqrt_less_range)

lemma resolve_behind: "process_traffic_lights scenario_behind = Inr (2, RED)"
  by (simp add: process_traffic_lights_def scenario_behind_def fixture_defs search_eval
      py_index_def dist_pose_at search_range_def sqrt_less_range)

lemma not_ahead: "\<not> spec_ahead (pose_at 0 0) (pose_at (- 25) 0)"
  by (simp add: spec_ahead_def car_orientation_def pose_at_def)

lemma resolve_C: "process_traffic_lights scenario_C = Inr (- 1, UNKNOWN)"
  by (simp add: process_traffic_lights_def scenario_C_def fixture_defs search_eval
      py_index_def dist_pose_at search_range_def sqrt_less_range)

section \<open>Properties of the stabiliser\<close>

lemma resolve_snapshot:
  "pose t = pose s \<Longrightarrow> waypoints t = waypoints s \<Longrightarrow> lights t = lights s \<Longrightarrow>
   stop_line_positions_poses t = stop_line_positions_poses s \<Longrightarrow>
   process_traffic_lights t = process_traffic_lights s"
  unfolding process_traffic_lights_def by (simp only:)

lemma image_cb_A:
  assumes "pose s = pose scenario_A" "waypoints s = waypoints scenario_A"
    "lights s = lights scenario_A"
    "stop_line_positions_poses s = stop_line_positions_poses scenario_A"
  shows "image_cb s = Inr (image_cb_publish (s\<lparr>has_image := True\<rparr>) (2, RED))"
proof -
  have "process_traffic_lights (s\<lparr>has_image := True\<rparr>) = process_traffic_lights scenario_A"
    using assms by (intro resolve_snapshot) simp_all
  then show ?thesis by (simp add: image_cb_def resolve_A)
qed

lemma frames_A_3: "map_sum id snd (frames 3 scenario_A) = Inr [- 1, - 1]"
  by (simp add: eval_nat_numeral image_cb_A image_cb_publish_def STATE_COUNT_THRESHOLD_def
      scenario_A_def fixture_defs)

lemma frames_A_4: "map_sum id snd (frames 4 scenario_A) = Inr [- 1, - 1, 2]"
  by (simp add: eval_nat_numeral image_cb_A image_cb_publish_def STATE_COUNT_THRESHOLD_def
      scenario_A_def fixture_defs)

lemma frames_A_4_wp: "map_sum id (last_wp \<circ> fst) (frames 4 scenario_A) = Inr 2"
  by (simp add: eval_nat_numeral image_cb_A image_cb_publish_def STATE_COUNT_THRESHOLD_def
      scenario_A_def fixture_defs)

lemma frames_A_3_wp: "map_sum id (last_wp \<circ> fst) (frames 3 scenario_A) = Inr (- 1)"
  by (simp add: eval_nat_numeral image_cb_A image_cb_publish_def STATE_COUNT_THRESHOLD_def
      scenario_A_def fixture_defs)

lemma first_frame_A: "map_sum id snd (image_cb scenario_A) = Inr []"
  by (simp add: image_cb_A image_cb_publish_def scenario_A_def fixture_defs)

lemma feed_change:
  assumes "state s \<noteq> c"
  shows "state (feed (wp, c) (Suc n) s) = c \<and> state_count (feed (wp, c) (Suc n) s) = int (Suc n) \<and>
    (if int (Suc n) \<le> STATE_COUNT_THRESHOLD
     then last_state (feed (wp, c) (Suc n) s) = last_state s \<and> last_wp (feed (wp, c) (Suc n) s) = last_wp s
     else last_state (feed (wp, c) (Suc n) s) = c \<and>
          last_wp (feed (wp, c) (Suc n) s) = (if c = RED then wp else - 1))"
proof (induction n)
  case 0
  with assms show ?case by (simp add: image_cb_publish_def STATE_COUNT_THRESHOLD_def)
next
  case (Suc n)
  define t where "t = feed (wp, c) (Suc n) s"
  have step: "feed (wp, c) (Suc (Suc n)) s = fst (image_cb_publish t (wp, c))"
    unfolding t_def by (rule feed.simps(2))
  from Suc have t: "state t = c" "state_count t = int (Suc n)"
    "int (Suc n) \<le> STATE_COUNT_THRESHOLD \<Longrightarrow> last_state t = last_state s \<and> last_wp t = last_wp s"
    unfolding t_def by (simp_all split: if_splits)
  show ?case
    unfolding step using t
    by (simp add: image_cb_publish_def STATE_COUNT_THRESHOLD_def Let_def)
qed

section \<open>The claims on the resolver and the stabiliser\<close>

text \<open>
  Claim C1 expects the published index to be 2 after three identical frames of
  scenario A. After three frames from the initial detector the value last published is
  still \<open>-1\<close>, and so is \<^verbatim>\<open>last_wp\<close>: the counter is compared before it is
  incremented, and it is 2 when the third frame is handled.
\<close>

theorem scenario_A_three_frames:
  "map_sum id (last \<circ> snd) (frames 3 scenario_A) = Inr (- 1) \<and>
   map_sum id (last_wp \<circ> fst) (frames 3 scenario_A) = Inr (- 1)"
  using frames_A_3 frames_A_3_wp by (cases "frames 3 scenario_A") auto

text \<open>
  Claim C1, amended. In scenario A the resolver returns waypoint index 2 with raw colour
  red. From the initial detector the third identical frame still publishes \<open>-1\<close>; the
  fourth publishes 2 and leaves \<^verbatim>\<open>last_wp\<close> at 2.
\<close>

theorem scenario_A_four_frames:
  "process_traffic_lights scenario_A = Inr (2, RED) \<and>
   map_sum id (last \<circ> snd) (frames 3 scenario_A) = Inr (- 1) \<and>
   map_sum id (last \<circ> snd) (frames 4 scenario_A) = Inr 2 \<and>
   map_sum id (last_wp \<circ> fst) (frames 4 scenario_A) = Inr 2"
proof -
  have "map_sum id (last \<circ> snd) (frames 3 scenario_A) = Inr (- 1)"
    using frames_A_3 by (cases "frames 3 scenario_A") auto
  moreover have "map_sum id (last \<circ> snd) (frames 4 scenario_A) = Inr 2"
    using frames_A_4 by (cases "frames 4 scenario_A") auto
  ultimately show ?thesis using resolve_A frames_A_4_wp by simp
qed

text \<open>
  Claim C2 at a detector that has a pose and a light in range, but no route yet: claimed
  is the result \<open>(-1, UNKNOWN)\<close> with no error. The resolver reaches
  \<^verbatim>\<open>self.waypoints.waypoints\<close> and raises an \<^verbatim>\<open>AttributeError\<close>.
\<close>

theorem missing_route_raises:
  "pose scenario_no_route = Some (pose_at 0 0) \<and> waypoints scenario_no_route = None \<and>
   process_traffic_lights scenario_no_route = Inl AttributeError"
  using resolve_no_route by (simp add: scenario_no_route_def fixture_defs)

text \<open>
  Claim C3 at a car heading along the x axis whose only light, stop line and route lie
  behind it: claimed is a search for the light restricted to candidates ahead of the
  heading. The resolver matches the light behind the car and returns its stop waypoint
  with the colour red; every search of the resolver passes no mode.
\<close>

theorem light_behind_is_matched:
  "pose scenario_behind = Some (pose_at 0 0) \<and>
   lights scenario_behind = [light_at (- 25) 0 RED] \<and>
   \<not> spec_ahead (pose_at 0 0) (light_pose (light_at (- 25) 0 RED)) \<and>
   process_traffic_lights scenario_behind = Inr (2, RED)"
  using resolve_behind not_ahead by (simp add: scenario_behind_def fixture_defs)

text \<open>
  Claim C4 at the first frame of scenario A: claimed is one published value per frame,
  also when the raw colour differs from the one seen before. The raw colour red differs
  from the initial \<^verbatim>\<open>UNKNOWN\<close>, and the frame publishes nothing.
\<close>

theorem colour_change_frame_publishes_nothing:
  "map_sum id snd (image_cb scenario_A) = Inr []"
  by (rule first_frame_A)

text \<open>
  Claim C6 says that from any state the same raw colour on THRESHOLD frames in a row
  commits it, at the THRESHOLD-th repetition. From the initial detector three red frames
  leave the stable colour \<^verbatim>\<open>UNKNOWN\<close> and the third one publishes \<open>-1\<close>; from a
  detector that has counted five red frames already, the first red frame commits.
\<close>

theorem three_frames_do_not_commit:
  "last_state (feed (2, RED) 3 (init [])) = UNKNOWN \<and>
   snd (image_cb_publish (feed (2, RED) 2 (init [])) (2, RED)) = [- 1] \<and>
   last_state seen_red = GREEN \<and>
   last_state (fst (image_cb_publish seen_red (7, RED))) = RED"
  by (simp add: eval_nat_numeral image_cb_publish_def STATE_COUNT_THRESHOLD_def init_def seen_red_def)

text \<open>
  Claim C6, amended. From a detector whose observed colour differs from \<open>c\<close>, let the
  raw result \<open>(wp, c)\<close> arrive on every frame. Frames 2 to THRESHOLD publish the old
  \<^verbatim>\<open>last_wp\<close>, and through the first THRESHOLD frames the stable colour and
  \<^verbatim>\<open>last_wp\<close> stay as they were. Frame THRESHOLD + 1 and every later frame publish
  \<open>wp\<close> if \<open>c\<close> is red and \<open>-1\<close> otherwise, and from frame THRESHOLD + 1 on the stable
  colour is \<open>c\<close>: it changes once. (\<open>feed r n s\<close> is the detector after \<open>n\<close> frames,
  so frame \<open>n + 1\<close> is published from it.)
\<close>

theorem repeated_colour_commits_after_threshold:
  assumes "state s \<noteq> c"
  shows "(\<forall>n. 0 < n \<and> int n < STATE_COUNT_THRESHOLD \<longrightarrow>
       snd (image_cb_publish (feed (wp, c) n s) (wp, c)) = [last_wp s]) \<and>
    (\<forall>n. int n \<le> STATE_COUNT_THRESHOLD \<longrightarrow>
       last_state (feed (wp, c) n s) = last_state s \<and> last_wp (feed (wp, c) n s) = last_wp s) \<and>
    (\<forall>n. STATE_COUNT_THRESHOLD \<le> int n \<longrightarrow>
       snd (image_cb_publish (feed (wp, c) n s) (wp, c)) = [if c = RED then wp else - 1]) \<and>
    (\<forall>n. STATE_COUNT_THRESHOLD < int n \<longrightarrow>
       last_state (feed (wp, c) n s) = c \<and>
       last_wp (feed (wp, c) n s) = (if c = RED then wp else - 1))"
proof (intro conjI allI impI)
  fix n assume n: "0 < n \<and> int n < STATE_COUNT_THRESHOLD"
  then obtain m where m: "n = Suc m" by (cases n) auto
  from feed_change [OF assms, of wp m] n m
  show "snd (image_cb_publish (feed (wp, c) n s) (wp, c)) = [last_wp s]"
    by (simp add: image_cb_publish_def split: if_splits)
next
  fix n assume n: "int n \<le> STATE_COUNT_THRESHOLD"
  show "last_state (feed (wp, c) n s) = last_state s"
  proof (cases n)
    case 0 then show ?thesis by simp
  next
    case (Suc m)
    with feed_change [OF assms, of wp m] n show ?thesis by (simp split: if_splits)
  qed
  show "last_wp (feed (wp, c) n s) = last_wp s"
  proof (cases n)
    case 0 then show ?thesis by simp
  next
    case (Suc m)
    with feed_change [OF assms, of wp m] n show ?thesis by (simp split: if_splits)
  qed
next
  fix n assume n: "STATE_COUNT_THRESHOLD \<le> int n"
  then obtain m where m: "n = Suc m" by (cases n) (auto simp: STATE_COUNT_THRESHOLD_def)
  from feed_change [OF assms, of wp m] n m
  show "snd (image_cb_publish (feed (wp, c) n s) (wp, c)) = [if c = RED then wp else - 1]"
    by (simp add: image_cb_publish_def Let_def split: if_splits)
next
  fix n assume n: "STATE_COUNT_THRESHOLD < int n"
  then obtain m where m: "n = Suc m" by (cases n) (auto simp: STATE_COUNT_THRESHOLD_def)
  from feed_change [OF assms, of wp m] n m
  show "last_state (feed (wp, c) n s) = c" by (simp split: if_splits)
  from feed_change [OF assms, of wp m] n m
  show "last_wp (feed (wp, c) n s) = (if c = RED then wp else - 1)" by (simp split: if_splits)
qed

theorem repeated_colour_commits_after_threshold_witness:
  "state (init []) \<noteq> RED \<and>
   snd (image_cb_publish (feed (2, RED) 2 (init [])) (2, RED)) = [last_wp (init [])] \<and>
   last_state (feed (2, RED) 3 (init [])) = last_state (init []) \<and>
   snd (image_cb_publish (feed (2, RED) 3 (init [])) (2, RED)) = [2] \<and>
   snd (image_cb_publish (feed (2, RED) 9 (init [])) (2, RED)) = [2] \<and>
   last_state (feed (2, RED) 4 (init [])) = RED"
proof -
  have h: "state (init []) \<noteq> RED" by (simp add: init_def)
  note t = repeated_colour_commits_after_threshold [OF h, of 2]
  have "snd (image_cb_publish (feed (2, RED) 2 (init [])) (2, RED)) = [last_wp (init [])]"
    using t by (simp add: STATE_COUNT_THRESHOLD_def)
  moreover have "last_state (feed (2, RED) 3 (init [])) = last_state (init [])"
    using t by (simp add: STATE_COUNT_THRESHOLD_def)
  moreover have "snd (image_cb_publish (feed (2, RED) 3 (init [])) (2, RED)) = [2]"
    using t by (simp add: STATE_COUNT_THRESHOLD_def)
  moreover have "snd (image_cb_publish (feed (2, RED) 9 (init [])) (2, RED)) = [2]"
    using t by (simp add: STATE_COUNT_THRESHOLD_def)
  moreover have "last_state (feed (2, RED) 4 (init [])) = RED"
    using t by (simp add: STATE_COUNT_THRESHOLD_def)
  ultimately show ?thesis using h by blast
qed

lemma found_light_index:
  assumes "get_closest_waypoint (Some p) (Some (map f xs)) None = Some i"
  shows "py_index xs i = Inr (xs ! nat i)"
proof -
  from assms obtain k where k: "snd (closest_loop p None 0 (map f xs) (None, None)) = Some k" "i = int k"
    by (auto simp: get_closest_waypoint_def)
  from closest_loop_found [OF k(1)] k(2) show ?thesis by (simp add: py_index_def)
qed

text \<open>
  Claim C7. When a light is matched and the stop line found from that light's position
  differs from the stop line found from the car's position, the resolver returns
  \<open>(-1, UNKNOWN)\<close>, whether or not both searches found a stop line.
\<close>

theorem stop_line_mismatch_is_no_light:
  assumes "pose s = Some car"
    and "get_closest_waypoint (Some car) (Some (map light_pose (lights s))) None = Some light_idx"
    and "get_closest_waypoint (Some (light_pose (lights s ! nat light_idx)))
           (Some (map light_pose (stop_line_positions_poses s))) None
         \<noteq> get_closest_waypoint (Some car) (Some (map light_pose (stop_line_positions_poses s))) None"
  shows "process_traffic_lights s = Inr (- 1, UNKNOWN)"
  using assms found_light_index [OF assms(2)]
  by (simp add: process_traffic_lights_def)

theorem stop_line_mismatch_is_no_light_witness:
  "pose scenario_C = Some (pose_at 0 0) \<and>
   get_closest_waypoint (Some (pose_at 0 0)) (Some (map light_pose (lights scenario_C))) None = Some 0 \<and>
   get_closest_waypoint (Some (light_pose (lights scenario_C ! nat 0)))
     (Some (map light_pose (stop_line_positions_poses scenario_C))) None = Some 1 \<and>
   get_closest_waypoint (Some (pose_at 0 0))
     (Some (map light_pose (stop_line_positions_poses scenario_C))) None = Some 0 \<and>
   process_traffic_lights scenario_C = Inr (- 1, UNKNOWN)"
proof -
  have a: "pose scenario_C = Some (pose_at 0 0)"
    by (simp add: scenario_C_def fixture_defs)
  have b: "get_closest_waypoint (Some (pose_at 0 0)) (Some (map light_pose (lights scenario_C))) None = Some 0"
    by (simp add: scenario_C_def fixture_defs search_eval dist_pose_at search_range_def sqrt_less_range)
  have c: "get_closest_waypoint (Some (light_pose (lights scenario_C ! nat 0)))
     (Some (map light_pose (stop_line_positions_poses scenario_C))) None = Some 1"
    by (simp add: scenario_C_def fixture_defs search_eval dist_pose_at search_range_def sqrt_less_range)
  have d: "get_closest_waypoint (Some (pose_at 0 0))
     (Some (map light_pose (stop_line_positions_poses scenario_C))) None = Some 0"
    by (simp add: scenario_C_def fixture_defs search_eval dist_pose_at search_range_def sqrt_less_range)
  have "process_traffic_lights scenario_C = Inr (- 1, UNKNOWN)"
    using c d by (intro stop_line_mismatch_is_no_light [OF a b]) simp
  with a b c d show ?thesis by blast
qed

end
